theory Spec2Isabelle
  imports Complex_Main "HOL-Library.Word"
begin

section \<open>Communication profiler (cubework/utils/profiling/communication.py)\<close>

text \<open>
  Python floats are idealised as reals (no rounding); Python integers are \<open>int\<close>.
  Every call of \<open>time.time()\<close> is an input of the model: the function that makes the
  call takes the reading of the clock as an argument named \<open>now\<close>.
\<close>

datatype error = ZeroDivisionError | TypeError

record CommProfiler =
  running_ops :: int
  total_time :: real
  total_vol :: real
  total_cnt :: int
  start_time :: "real option"

definition CommProfiler_reset :: "CommProfiler" where
  "CommProfiler_reset =
     \<lparr>running_ops = 0, total_time = 0, total_vol = 0, total_cnt = 0, start_time = None\<rparr>"

definition new :: "real \<Rightarrow> real \<Rightarrow> CommProfiler \<Rightarrow> CommProfiler" where
  "new vol now self =
     (let self = self\<lparr>running_ops := running_ops self + 1\<rparr>;
          self = self\<lparr>total_cnt := total_cnt self + 1\<rparr>;
          self = self\<lparr>total_vol := total_vol self + vol\<rparr>
      in if start_time self = None then self\<lparr>start_time := Some now\<rparr> else self)"

text \<open>
  \<open>time.time() - self.start_time\<close> raises TypeError when \<open>start_time\<close> is None.
\<close>

definition finish :: "real \<Rightarrow> CommProfiler \<Rightarrow> error + CommProfiler" where
  "finish now self =
     (let self = self\<lparr>running_ops := running_ops self - 1\<rparr>
      in if running_ops self = 0 then
           (case start_time self of
              None \<Rightarrow> Inl TypeError
            | Some t0 \<Rightarrow>
                Inr (self\<lparr>total_time := total_time self + (now - t0), start_time := None\<rparr>))
         else Inr self)"

subsection \<open>The process-wide entry points of torch.distributed\<close>

text \<open>
  Each of the five names of \<open>torch.distributed\<close> is bound either to the implementation
  saved at import time (\<open>torch_all_reduce\<close> and its siblings) or to the profiling
  wrapper of this module, partially applied to the profiler.
\<close>

datatype entry_point = Torch | Profiled

record dist =
  dist_all_reduce :: entry_point
  dist_all_gather :: entry_point
  dist_reduce_scatter :: entry_point
  dist_broadcast :: entry_point
  dist_reduce :: entry_point

definition start :: "dist \<Rightarrow> dist" where
  "start d = d\<lparr>dist_all_reduce := Profiled, dist_all_gather := Profiled,
                dist_reduce_scatter := Profiled, dist_broadcast := Profiled,
                dist_reduce := Profiled\<rparr>"

text \<open>
  \<open>stop\<close> has no return statement: the call evaluates to Python's None, which is the
  \<open>None\<close> of the option below. A returned triple would be \<open>Some (cnt, vol, time)\<close>.
\<close>

definition stop :: "CommProfiler \<Rightarrow> dist \<Rightarrow> (int \<times> real \<times> real) option \<times> dist" where
  "stop self d =
     (None, d\<lparr>dist_all_reduce := Torch, dist_all_gather := Torch,
               dist_reduce_scatter := Torch, dist_broadcast := Torch,
               dist_reduce := Torch\<rparr>)"

definition originals :: dist where
  "originals = \<lparr>dist_all_reduce = Torch, dist_all_gather = Torch,
                 dist_reduce_scatter = Torch, dist_broadcast = Torch,
                 dist_reduce = Torch\<rparr>"

text \<open>
  The unpacking \<open>_, comm_vol, comm_time = comm_profiler.stop()\<close> of
  \<open>benchmark/train.py\<close>: None is not iterable, so it raises TypeError.
\<close>

definition unpack3 :: "('a \<times> 'b \<times> 'c) option \<Rightarrow> error + ('a \<times> 'b \<times> 'c)" where
  "unpack3 r = (case r of None \<Rightarrow> Inl TypeError | Some t \<Rightarrow> Inr t)"

text \<open>
  The profiling bracket of \<open>_train\<close> (lines 78--80 and 165--166) around a loop that
  issues no collective: reset, start, stop, unpack.
\<close>

definition train_window :: "dist \<Rightarrow> error + (real \<times> real)" where
  "train_window d =
     (let comm_profiler = CommProfiler_reset;
          d = start d;
          (r, d) = stop comm_profiler d
      in case unpack3 r of
           Inl e \<Rightarrow> Inl e
         | Inr (_, comm_vol, comm_time) \<Rightarrow> Inr (comm_vol, comm_time))"

subsection \<open>The profiling wrappers\<close>

text \<open>
  Of a tensor the wrappers read only \<open>element_size()\<close> and \<open>numel()\<close>.
  \<open>comm_size\<close> is what \<open>dist.get_world_size(group)\<close> returns. The collective itself
  (\<open>torch_all_reduce\<close> and its siblings) belongs to torch; it hands back a completion
  token and does not touch the profiler.
\<close>

record tensor =
  element_size :: int
  numel :: int

datatype work = Work

datatype CommHandler = CommHandler work

definition wait :: "CommHandler \<Rightarrow> real \<Rightarrow> CommProfiler \<Rightarrow> error + CommProfiler" where
  "wait h now prof = finish now prof"

text \<open>
  The common tail of the five wrappers: an asynchronous call returns a handle, a
  synchronous one finishes at once and returns None.
\<close>

definition complete ::
  "bool \<Rightarrow> real \<Rightarrow> CommProfiler \<Rightarrow> error + (CommHandler option \<times> CommProfiler)" where
  "complete async_op now profiler =
     (if async_op then Inr (Some (CommHandler Work), profiler)
      else (case finish now profiler of
              Inl e \<Rightarrow> Inl e
            | Inr p \<Rightarrow> Inr (None, p)))"

definition all_reduce ::
  "int \<Rightarrow> tensor \<Rightarrow> bool \<Rightarrow> real \<Rightarrow> real \<Rightarrow> CommProfiler
     \<Rightarrow> error + (CommHandler option \<times> CommProfiler)" where
  "all_reduce comm_size t async_op now1 now2 profiler =
     (if comm_size = 0 then Inl ZeroDivisionError
      else
        let correction = real_of_int (2 * (comm_size - 1)) / real_of_int comm_size;
            comm_vol = correction * real_of_int (element_size t) * real_of_int (numel t)
        in complete async_op now2 (new comm_vol now1 profiler))"

definition reduce_scatter ::
  "int \<Rightarrow> tensor list \<Rightarrow> bool \<Rightarrow> real \<Rightarrow> real \<Rightarrow> CommProfiler
     \<Rightarrow> error + (CommHandler option \<times> CommProfiler)" where
  "reduce_scatter comm_size input_list async_op now1 now2 profiler =
     (if comm_size = 0 then Inl ZeroDivisionError
      else
        let correction = real_of_int (comm_size - 1) / real_of_int comm_size;
            comm_vol = foldl (\<lambda>v t. v + element_size t * numel t) 0 input_list;
            comm_vol = real_of_int comm_vol * correction
        in complete async_op now2 (new comm_vol now1 profiler))"

definition all_gather ::
  "int \<Rightarrow> tensor list \<Rightarrow> bool \<Rightarrow> real \<Rightarrow> real \<Rightarrow> CommProfiler
     \<Rightarrow> error + (CommHandler option \<times> CommProfiler)" where
  "all_gather comm_size tensor_list async_op now1 now2 profiler =
     (if comm_size = 0 then Inl ZeroDivisionError
      else
        let correction = real_of_int (comm_size - 1) / real_of_int comm_size;
            comm_vol = foldl (\<lambda>v ten. v + element_size ten * numel ten) 0 tensor_list;
            comm_vol = real_of_int comm_vol * correction
        in complete async_op now2 (new comm_vol now1 profiler))"

definition broadcast ::
  "tensor \<Rightarrow> bool \<Rightarrow> real \<Rightarrow> real \<Rightarrow> CommProfiler
     \<Rightarrow> error + (CommHandler option \<times> CommProfiler)" where
  "broadcast t async_op now1 now2 profiler =
     (let comm_vol = 1 * real_of_int (element_size t) * real_of_int (numel t)
      in complete async_op now2 (new comm_vol now1 profiler))"

definition reduce ::
  "tensor \<Rightarrow> bool \<Rightarrow> real \<Rightarrow> real \<Rightarrow> CommProfiler
     \<Rightarrow> error + (CommHandler option \<times> CommProfiler)" where
  "reduce t async_op now1 now2 profiler =
     (let comm_vol = 1 * real_of_int (element_size t) * real_of_int (numel t)
      in complete async_op now2 (new comm_vol now1 profiler))"

text \<open>The byte size of a tensor, and of a list of chunks, as the spec counts them.\<close>

definition bytes :: "tensor \<Rightarrow> int" where
  "bytes t = element_size t * numel t"

subsection \<open>Sequences of issue and completion events\<close>

text \<open>
  What a profiling session sees of the collectives issued inside a window: calls of
  \<open>new\<close> (with the recorded volume and the clock reading) and calls of \<open>finish\<close>
  (with the clock reading), in program order.
\<close>

datatype event = New real real | Finish real

fun run :: "event list \<Rightarrow> CommProfiler \<Rightarrow> error + CommProfiler" where
  "run [] s = Inr s"
| "run (New vol now # es) s = run es (new vol now s)"
| "run (Finish now # es) s =
     (case finish now s of Inl e \<Rightarrow> Inl e | Inr s' \<Rightarrow> run es s')"

text \<open>
  \<open>outstanding n es\<close>: starting with \<open>n\<close> collectives in flight, no prefix of \<open>es\<close>
  completes more collectives than were issued. \<open>closed n es\<close>: moreover every one of
  them has completed at the end.
\<close>

fun outstanding :: "int \<Rightarrow> event list \<Rightarrow> bool" where
  "outstanding n [] = True"
| "outstanding n (New vol now # es) = outstanding (n + 1) es"
| "outstanding n (Finish now # es) = (0 < n \<and> outstanding (n - 1) es)"

fun closed :: "int \<Rightarrow> event list \<Rightarrow> bool" where
  "closed n [] = (n = 0)"
| "closed n (New vol now # es) = closed (n + 1) es"
| "closed n (Finish now # es) = (0 < n \<and> closed (n - 1) es)"

text \<open>
  The caller of a wrapper: it waits on the handle when one was returned
  (\<open>h = dist.all_reduce(..., async_op=True); h.wait()\<close>), and has nothing to wait for
  after a synchronous call.
\<close>

definition await ::
  "real \<Rightarrow> error + (CommHandler option \<times> CommProfiler) \<Rightarrow> error + CommProfiler" where
  "await now r =
     (case r of
        Inl e \<Rightarrow> Inl e
      | Inr (None, p) \<Rightarrow> Inr p
      | Inr (Some h, p) \<Rightarrow> wait h now p)"

section \<open>Reductions over the data-parallel group\<close>

text \<open>
  Results of torch's true division and of \<open>torch.exp\<close>: finite values are idealised as
  reals; a zero divisor gives an infinity or NaN, it does not raise. The divisors of
  the code are integers, so the zero is the positive one.
\<close>

datatype tfloat = Fin real | PInf | NInf | NaN

definition tensor_div :: "real \<Rightarrow> real \<Rightarrow> tfloat" where
  "tensor_div a b =
     (if b \<noteq> 0 then Fin (a / b)
      else if a = 0 then NaN
      else if 0 < a then PInf else NInf)"

fun tensor_exp :: "tfloat \<Rightarrow> tfloat" where
  "tensor_exp (Fin x) = Fin (exp x)"
| "tensor_exp PInf = PInf"
| "tensor_exp NInf = Fin 0"
| "tensor_exp NaN = NaN"

text \<open>A stacked tensor of two entries is a pair; tensors add entry by entry.\<close>

instantiation prod :: (plus, plus) plus
begin

definition plus_prod :: "'a \<times> 'b \<Rightarrow> 'a \<times> 'b \<Rightarrow> 'a \<times> 'b" where
  "plus_prod x y = (fst x + fst y, snd x + snd y)"

instance ..

end

text \<open>
  Modelled from the spec: \<open>cubework.distributed.all_reduce\<close> (imported by
  \<open>metrics.py\<close> and \<open>train.py\<close>) is not among the sources. By the spec it is a
  blocking SUM reduction over the group whose result every rank observes: the rank's
  own tensor plus the tensors \<open>others\<close> that the other ranks of the group contribute.
  The callers among the sources use it in two ways: \<open>metrics.py\<close> and the two
  helpers of \<open>train.py\<close> take the tensor it returns, and \<open>_test\<close> of \<open>train.py\<close>
  (lines 280--285) drops what it returns and reads the argument afterwards
  (\<open>all_reduce(test_loss)\<close>, then \<open>test_loss.item()\<close>), which needs the reduction
  written into the argument. The model returns the reduced tensor and the content of
  the argument tensor after the call; \<open>in_place\<close> says whether the reduction is written
  into the argument, as \<open>_test\<close> needs it (\<open>True\<close>), or not.
\<close>

definition collective_all_reduce :: "bool \<Rightarrow> 'a::plus \<Rightarrow> 'a list \<Rightarrow> 'a \<times> 'a" where
  "collective_all_reduce in_place t others =
     (let out = foldl (+) t others in (out, if in_place then out else t))"

subsection \<open>The helpers of benchmark/train.py\<close>

text \<open>\<open>world_size\<close> is \<open>pm.DATA.world_size\<close>. Both helpers return \<open>out\<close>.\<close>

definition data_parallel_sum :: "bool \<Rightarrow> int \<Rightarrow> 'a::plus list \<Rightarrow> 'a \<Rightarrow> 'a" where
  "data_parallel_sum in_place world_size others t =
     (let out = t
      in if world_size > 1 then fst (collective_all_reduce in_place out others) else out)"

definition data_parallel_mean :: "bool \<Rightarrow> int \<Rightarrow> real list \<Rightarrow> real \<Rightarrow> real" where
  "data_parallel_mean in_place world_size others t =
     (let out = t
      in if world_size > 1
         then fst (collective_all_reduce in_place out others) / real_of_int world_size
         else out)"

subsection \<open>Accuracy (cubework/module/metric/metrics.py)\<close>

text \<open>
  \<open>torch.zeros(()).to(torch.int)\<close> is a 32-bit signed integer tensor: the in-place
  additions wrap around. \<open>correct\<close> is what \<open>self.acc(logits, targets)\<close> returns and
  \<open>batch_size\<close> is \<open>targets.size(0)\<close>; the functions behind \<open>self.acc\<close> are not among
  the sources, so both are inputs.
\<close>

record Accuracy =
  total_correct :: "32 word"
  total_samples :: "32 word"

definition Accuracy_reset :: Accuracy where
  "Accuracy_reset = \<lparr>total_correct = 0, total_samples = 0\<rparr>"

definition Accuracy_forward :: "int \<times> int \<Rightarrow> Accuracy \<Rightarrow> tfloat \<times> Accuracy" where
  "Accuracy_forward b self =
     (let correct = fst b; batch_size = snd b;
          self = self\<lparr>total_samples := total_samples self + word_of_int batch_size\<rparr>;
          self = self\<lparr>total_correct := total_correct self + word_of_int correct\<rparr>
      in (tensor_div (real_of_int correct) (real_of_int batch_size), self))"

text \<open>
  \<open>torch.stack\<close> builds a new tensor, so whatever the reduction does to its argument
  is done to the stacked copy, which is dropped. \<open>others\<close> are the accumulators of
  the other ranks, which call \<open>value()\<close> at the same time. The result is \<open>Inr\<close>: no
  statement of \<open>value()\<close> raises.
\<close>

definition Accuracy_value ::
  "bool \<Rightarrow> Accuracy list \<Rightarrow> Accuracy \<Rightarrow> error + (tfloat \<times> Accuracy)" where
  "Accuracy_value in_place others self =
     (let stacked = (total_correct self, total_samples self);
          (reduced_values, stacked) =
             collective_all_reduce in_place stacked
               (map (\<lambda>a. (total_correct a, total_samples a)) others)
      in Inr (tensor_div (real_of_int (sint (fst reduced_values)))
                         (real_of_int (sint (snd reduced_values))), self))"

text \<open>The accumulator after the \<open>forward()\<close> calls of a list of batches.\<close>

fun Accuracy_run :: "(int \<times> int) list \<Rightarrow> Accuracy \<Rightarrow> Accuracy" where
  "Accuracy_run [] self = self"
| "Accuracy_run (b # bs) self = Accuracy_run bs (snd (Accuracy_forward b self))"

subsection \<open>Perplexity (cubework/module/metric/metrics.py)\<close>

text \<open>
  \<open>cnt\<close> is a Python integer, \<open>total_loss\<close> a float tensor. \<open>value()\<close> hands
  \<open>self.total_loss\<close> itself to the reduction, so the tensor after the call is what the
  reduction leaves in it. \<open>others\<close> are the \<open>total_loss\<close> tensors of the other ranks.
  The division is a tensor division: it does not raise on a zero divisor.
\<close>

record Perplexity =
  cnt :: int
  total_loss :: real

definition Perplexity_reset :: Perplexity where
  "Perplexity_reset = \<lparr>cnt = 0, total_loss = 0\<rparr>"

definition Perplexity_forward :: "real \<Rightarrow> Perplexity \<Rightarrow> tfloat \<times> Perplexity" where
  "Perplexity_forward loss self =
     (let self = self\<lparr>cnt := cnt self + 1\<rparr>;
          self = self\<lparr>total_loss := total_loss self + loss\<rparr>
      in (tensor_exp (Fin loss), self))"

definition Perplexity_value ::
  "bool \<Rightarrow> int \<Rightarrow> real list \<Rightarrow> Perplexity \<Rightarrow> error + (tfloat \<times> Perplexity)" where
  "Perplexity_value in_place world_size others self =
     (let (out, t) = collective_all_reduce in_place (total_loss self) others;
          self = self\<lparr>total_loss := t\<rparr>;
          reduced_loss = tensor_div out (real_of_int (cnt self * world_size))
      in Inr (tensor_exp reduced_loss, self))"

fun Perplexity_run :: "real list \<Rightarrow> Perplexity \<Rightarrow> Perplexity" where
  "Perplexity_run [] self = self"
| "Perplexity_run (loss # losses) self =
     Perplexity_run losses (snd (Perplexity_forward loss self))"

text \<open>\<open>n\<close> calls in succession of a method that returns a value and the new state.\<close>

fun repeat_call ::
  "nat \<Rightarrow> ('s \<Rightarrow> error + ('v \<times> 's)) \<Rightarrow> 's \<Rightarrow> error + ('v list \<times> 's)" where
  "repeat_call 0 f s = Inr ([], s)"
| "repeat_call (Suc n) f s =
     (case f s of
        Inl e \<Rightarrow> Inl e
      | Inr (v, s') \<Rightarrow>
          (case repeat_call n f s' of
             Inl e \<Rightarrow> Inl e
           | Inr (vs, s'') \<Rightarrow> Inr (v # vs, s'')))"

text \<open>
  The correct predictions and the samples of a whole group, given the batches
  \<open>(correct, batch_size)\<close> that each rank has passed to \<open>forward()\<close>.
\<close>

definition global_correct :: "(int \<times> int) list list \<Rightarrow> int" where
  "global_correct bss = sum_list (map fst (concat bss))"

definition global_samples :: "(int \<times> int) list list \<Rightarrow> int" where
  "global_samples bss = sum_list (map snd (concat bss))"

section \<open>Theorems\<close>

text \<open>
  C1. \<open>stop()\<close> restores the five original entry points, but it returns None and not the
  triple \<open>(total_count, total_volume, total_time)\<close>: after reset, start and stop with no
  collective issued the result is None, not \<open>(0, 0, 0)\<close>, and the unpacking of the result
  in \<open>_train\<close> raises TypeError.
\<close>

theorem stop_returns_None:
  "stop CommProfiler_reset (start d) = (None, originals)
   \<and> fst (stop CommProfiler_reset (start d)) \<noteq> Some (0, 0, 0)
   \<and> train_window d = Inl TypeError"
  by (simp add: stop_def start_def originals_def train_window_def unpack3_def)

subsection \<open>What one wrapper call records\<close>

lemma new_fields:
  "running_ops (new vol now s) = running_ops s + 1"
  "total_cnt (new vol now s) = total_cnt s + 1"
  "total_vol (new vol now s) = total_vol s + vol"
  "total_time (new vol now s) = total_time s"
  "start_time (new vol now s) = (case start_time s of None \<Rightarrow> Some now | Some t0 \<Rightarrow> Some t0)"
  by (simp_all add: new_def Let_def split: option.split)

lemma finish_Some:
  "start_time s = Some t0 \<Longrightarrow>
   finish now s =
     Inr (if running_ops s = 1
          then s\<lparr>running_ops := 0, total_time := total_time s + (now - t0), start_time := None\<rparr>
          else s\<lparr>running_ops := running_ops s - 1\<rparr>)"
  by (simp add: finish_def Let_def)

lemma finish_after_new:
  "\<exists>p. finish now2 (new vol now1 s) = Inr p
       \<and> total_vol p = total_vol s + vol \<and> total_cnt p = total_cnt s + 1
       \<and> running_ops p = running_ops s"
proof (cases "start_time s")
  case None
  then have "start_time (new vol now1 s) = Some now1" by (simp add: new_fields)
  from finish_Some [OF this] show ?thesis by (simp add: new_fields)
next
  case (Some t0)
  then have "start_time (new vol now1 s) = Some t0" by (simp add: new_fields)
  from finish_Some [OF this] show ?thesis by (simp add: new_fields)
qed

lemma complete_after_new:
  "\<exists>h p. complete async_op now2 (new vol now1 s) = Inr (h, p)
       \<and> total_vol p = total_vol s + vol \<and> total_cnt p = total_cnt s + 1"
proof (cases async_op)
  case True
  then show ?thesis by (simp add: complete_def new_fields)
next
  case False
  from finish_after_new [of now2 vol now1 s] obtain p where
    "finish now2 (new vol now1 s) = Inr p" "total_vol p = total_vol s + vol"
    "total_cnt p = total_cnt s + 1" by blast
  with False show ?thesis by (simp add: complete_def)
qed

lemma complete_vol:
  "vol = vol' \<Longrightarrow>
   \<exists>h p. complete async_op now2 (new vol now1 s) = Inr (h, p) \<and> total_vol p = total_vol s + vol'"
  using complete_after_new [of async_op now2 vol now1 s] by blast

lemma complete_vol_zero:
  "vol = 0 \<Longrightarrow>
   \<exists>h p. complete async_op now2 (new vol now1 s) = Inr (h, p) \<and> total_vol p = total_vol s"
  using complete_vol [of vol 0 async_op now2 now1 s] by simp

lemma foldl_bytes:
  "foldl (\<lambda>v t. v + element_size t * numel t) a ts = a + sum_list (map bytes ts)"
  by (induction ts arbitrary: a) (simp_all add: bytes_def)

text \<open>
  C2. For a group of size \<open>P \<ge> 1\<close> each wrapper call, synchronous or not, returns
  normally and adds to \<open>total_vol\<close> the volume of the throughput model: \<open>2 (P - 1) / P\<close>
  times the bytes of the tensor for all-reduce, \<open>(P - 1) / P\<close> times the summed bytes of
  the chunks for reduce-scatter and all-gather, the bytes of the tensor for broadcast and
  reduce.
\<close>

theorem volume_model:
  assumes "1 \<le> P"
  shows "(\<exists>h p. all_reduce P t async_op now1 now2 s = Inr (h, p)
            \<and> total_vol p
                = total_vol s + 2 * (real_of_int P - 1) / real_of_int P * real_of_int (bytes t))
       \<and> (\<exists>h p. reduce_scatter P ts async_op now1 now2 s = Inr (h, p)
            \<and> total_vol p
                = total_vol s
                  + (real_of_int P - 1) / real_of_int P * real_of_int (sum_list (map bytes ts)))
       \<and> (\<exists>h p. all_gather P ts async_op now1 now2 s = Inr (h, p)
            \<and> total_vol p
                = total_vol s
                  + (real_of_int P - 1) / real_of_int P * real_of_int (sum_list (map bytes ts)))
       \<and> (\<exists>h p. broadcast t async_op now1 now2 s = Inr (h, p)
            \<and> total_vol p = total_vol s + real_of_int (bytes t))
       \<and> (\<exists>h p. reduce t async_op now1 now2 s = Inr (h, p)
            \<and> total_vol p = total_vol s + real_of_int (bytes t))"
proof (intro conjI)
  from assms have nz: "P \<noteq> 0" by simp
  show "\<exists>h p. all_reduce P t async_op now1 now2 s = Inr (h, p)
            \<and> total_vol p
                = total_vol s + 2 * (real_of_int P - 1) / real_of_int P * real_of_int (bytes t)"
    unfolding all_reduce_def Let_def if_not_P [OF nz]
    by (rule complete_vol) (simp add: bytes_def algebra_simps)
  show "\<exists>h p. reduce_scatter P ts async_op now1 now2 s = Inr (h, p)
            \<and> total_vol p
                = total_vol s
                  + (real_of_int P - 1) / real_of_int P * real_of_int (sum_list (map bytes ts))"
    unfolding reduce_scatter_def Let_def if_not_P [OF nz]
    by (rule complete_vol) (simp add: foldl_bytes)
  show "\<exists>h p. all_gather P ts async_op now1 now2 s = Inr (h, p)
            \<and> total_vol p
                = total_vol s
                  + (real_of_int P - 1) / real_of_int P * real_of_int (sum_list (map bytes ts))"
    unfolding all_gather_def Let_def if_not_P [OF nz]
    by (rule complete_vol) (simp add: foldl_bytes)
  show "\<exists>h p. broadcast t async_op now1 now2 s = Inr (h, p)
            \<and> total_vol p = total_vol s + real_of_int (bytes t)"
    unfolding broadcast_def Let_def
    by (rule complete_vol) (simp add: bytes_def)
  show "\<exists>h p. reduce t async_op now1 now2 s = Inr (h, p)
            \<and> total_vol p = total_vol s + real_of_int (bytes t)"
    unfolding reduce_def Let_def
    by (rule complete_vol) (simp add: bytes_def)
qed

text \<open>
  The all-reduce of the spec's end-to-end scenario: four ranks, 1024 elements of four
  bytes, issued synchronously from the reset state.
\<close>

theorem volume_model_witness:
  "(1::int) \<le> 4
   \<and> all_reduce 4 \<lparr>element_size = 4, numel = 1024\<rparr> False 0 1 CommProfiler_reset
       = Inr (None, \<lparr>running_ops = 0, total_time = 1, total_vol = 6144, total_cnt = 1,
                     start_time = None\<rparr>)
   \<and> (\<exists>h p. all_reduce 4 \<lparr>element_size = 4, numel = 1024\<rparr> False 0 1 CommProfiler_reset
              = Inr (h, p)
            \<and> total_vol p = total_vol CommProfiler_reset
                 + 2 * (real_of_int 4 - 1) / real_of_int 4
                   * real_of_int (bytes \<lparr>element_size = 4, numel = 1024\<rparr>))"
proof -
  have h: "(1::int) \<le> 4" by simp
  have e: "all_reduce 4 \<lparr>element_size = 4, numel = 1024\<rparr> False 0 1 CommProfiler_reset
       = Inr (None, \<lparr>running_ops = 0, total_time = 1, total_vol = 6144, total_cnt = 1,
                     start_time = None\<rparr>)"
    by (simp add: all_reduce_def complete_def finish_def new_def CommProfiler_reset_def Let_def)
  from volume_model [OF h, of "\<lparr>element_size = 4, numel = 1024\<rparr>" False 0 1 CommProfiler_reset]
  show ?thesis using h e by blast
qed

text \<open>
  C3, as stated, fails: \<open>broadcast\<close> (and \<open>reduce\<close>) never read the group size. A
  broadcast of 1024 elements of four bytes records 4096 bytes whatever the size of the
  group, a single-process group included.
\<close>

theorem broadcast_single_process_counterexample:
  "broadcast \<lparr>element_size = 4, numel = 1024\<rparr> False 0 1 CommProfiler_reset
     = Inr (None, \<lparr>running_ops = 0, total_time = 1, total_vol = 4096, total_cnt = 1,
                   start_time = None\<rparr>)"
  by (simp add: broadcast_def complete_def finish_def new_def CommProfiler_reset_def Let_def)

text \<open>
  C3, amended. In a group of size 1 an all-reduce, a reduce-scatter and an all-gather
  record zero bytes; a broadcast and a reduce record the bytes of the tensor
  (element size times number of elements), as in a group of any size.
\<close>

theorem volume_single_process:
  "(\<exists>h p. all_reduce 1 t async_op now1 now2 s = Inr (h, p) \<and> total_vol p = total_vol s)
   \<and> (\<exists>h p. reduce_scatter 1 ts async_op now1 now2 s = Inr (h, p)
          \<and> total_vol p = total_vol s)
   \<and> (\<exists>h p. all_gather 1 ts async_op now1 now2 s = Inr (h, p)
          \<and> total_vol p = total_vol s)
   \<and> (\<exists>h p. broadcast t async_op now1 now2 s = Inr (h, p)
          \<and> total_vol p = total_vol s + real_of_int (element_size t * numel t))
   \<and> (\<exists>h p. reduce t async_op now1 now2 s = Inr (h, p)
          \<and> total_vol p = total_vol s + real_of_int (element_size t * numel t))"
proof (intro conjI)
  have nz: "(1::int) \<noteq> 0" by simp
  show "\<exists>h p. all_reduce 1 t async_op now1 now2 s = Inr (h, p) \<and> total_vol p = total_vol s"
    unfolding all_reduce_def Let_def if_not_P [OF nz]
    by (rule complete_vol_zero) simp
  show "\<exists>h p. reduce_scatter 1 ts async_op now1 now2 s = Inr (h, p)
          \<and> total_vol p = total_vol s"
    unfolding reduce_scatter_def Let_def if_not_P [OF nz]
    by (rule complete_vol_zero) simp
  show "\<exists>h p. all_gather 1 ts async_op now1 now2 s = Inr (h, p)
          \<and> total_vol p = total_vol s"
    unfolding all_gather_def Let_def if_not_P [OF nz]
    by (rule complete_vol_zero) simp
  show "\<exists>h p. broadcast t async_op now1 now2 s = Inr (h, p)
          \<and> total_vol p = total_vol s + real_of_int (element_size t * numel t)"
    unfolding broadcast_def Let_def
    by (rule complete_vol) simp
  show "\<exists>h p. reduce t async_op now1 now2 s = Inr (h, p)
          \<and> total_vol p = total_vol s + real_of_int (element_size t * numel t)"
    unfolding reduce_def Let_def
    by (rule complete_vol) simp
qed

subsection \<open>Sequences of events\<close>

lemma run_append:
  "run (xs @ ys) s = (case run xs s of Inl e \<Rightarrow> Inl e | Inr s' \<Rightarrow> run ys s')"
proof (induction xs arbitrary: s)
  case Nil
  show ?case by simp
next
  case (Cons x xs)
  show ?case
  proof (cases x)
    case (New vol now)
    with Cons show ?thesis by simp
  next
    case (Finish now)
    with Cons show ?thesis by (cases "finish now s") simp_all
  qed
qed

lemma run_outstanding:
  "0 \<le> running_ops s \<Longrightarrow> (start_time s = None \<longleftrightarrow> running_ops s = 0) \<Longrightarrow>
   outstanding (running_ops s) es \<Longrightarrow>
   \<exists>s'. run es s = Inr s' \<and> 0 \<le> running_ops s'
        \<and> (start_time s' = None \<longleftrightarrow> running_ops s' = 0)"
proof (induction es arbitrary: s)
  case Nil
  then show ?case by simp
next
  case (Cons x es)
  show ?case
  proof (cases x)
    case (New vol now)
    let ?s = "new vol now s"
    have "0 \<le> running_ops ?s" using Cons.prems(1) by (simp add: new_fields)
    moreover have "start_time ?s = None \<longleftrightarrow> running_ops ?s = 0"
      using Cons.prems(1) by (simp add: new_fields split: option.split)
    moreover have "outstanding (running_ops ?s) es"
      using Cons.prems(3) New by (simp add: new_fields)
    ultimately show ?thesis using Cons.IH [of ?s] New by simp
  next
    case (Finish now)
    with Cons.prems(3) have pos: "0 < running_ops s" and rest: "outstanding (running_ops s - 1) es"
      by simp_all
    with Cons.prems(2) obtain t0 where t0: "start_time s = Some t0" by auto
    let ?s = "if running_ops s = 1
          then s\<lparr>running_ops := 0, total_time := total_time s + (now - t0), start_time := None\<rparr>
          else s\<lparr>running_ops := running_ops s - 1\<rparr>"
    have f: "finish now s = Inr ?s" by (rule finish_Some [OF t0])
    have "0 \<le> running_ops ?s" using pos by simp
    moreover have "start_time ?s = None \<longleftrightarrow> running_ops ?s = 0" using pos t0 by simp
    moreover have "outstanding (running_ops ?s) es"
      using rest by (cases "running_ops s = 1") simp_all
    ultimately show ?thesis using Cons.IH [of ?s] Finish f by simp
  qed
qed

lemma run_closed:
  "start_time s = Some t0 \<Longrightarrow> 0 < k \<Longrightarrow> running_ops s = k + n \<Longrightarrow> closed n es \<Longrightarrow>
   \<exists>s'. run es s = Inr s' \<and> running_ops s' = k \<and> start_time s' = Some t0
        \<and> total_time s' = total_time s"
proof (induction es arbitrary: s n)
  case Nil
  then show ?case by simp
next
  case (Cons x es)
  show ?case
  proof (cases x)
    case (New vol now)
    let ?s = "new vol now s"
    have "start_time ?s = Some t0" using Cons.prems(1) by (simp add: new_fields)
    moreover have "running_ops ?s = k + (n + 1)" using Cons.prems(3) by (simp add: new_fields)
    moreover have "closed (n + 1) es" using Cons.prems(4) New by simp
    ultimately obtain s' where "run es ?s = Inr s'" "running_ops s' = k"
      "start_time s' = Some t0" "total_time s' = total_time ?s"
      using Cons.IH [of ?s "n + 1"] Cons.prems(2) by blast
    then show ?thesis using New by (simp add: new_fields)
  next
    case (Finish now)
    with Cons.prems(4) have n: "0 < n" and rest: "closed (n - 1) es" by simp_all
    let ?s = "s\<lparr>running_ops := running_ops s - 1\<rparr>"
    have "running_ops s \<noteq> 1" using n Cons.prems(2,3) by simp
    then have f: "finish now s = Inr ?s" using finish_Some [OF Cons.prems(1), of now] by simp
    have "start_time ?s = Some t0" using Cons.prems(1) by simp
    moreover have "running_ops ?s = k + (n - 1)" using Cons.prems(3) by simp
    ultimately obtain s' where "run es ?s = Inr s'" "running_ops s' = k"
      "start_time s' = Some t0" "total_time s' = total_time ?s"
      using Cons.IH [of ?s "n - 1"] Cons.prems(2) rest by blast
    then show ?thesis using Finish f by simp
  qed
qed

lemma busy_span:
  assumes "running_ops s = 0" and "closed 0 inner"
  shows "\<exists>s'. run (New vol t0 # inner @ [Finish t1]) s = Inr s' \<and> running_ops s' = 0
            \<and> start_time s' = None
            \<and> total_time s' = total_time s + (t1 - (case start_time s of None \<Rightarrow> t0 | Some t \<Rightarrow> t))"
proof -
  let ?t = "case start_time s of None \<Rightarrow> t0 | Some t \<Rightarrow> t"
  let ?s1 = "new vol t0 s"
  have st: "start_time ?s1 = Some ?t" by (simp add: new_fields split: option.split)
  have "running_ops ?s1 = 1 + 0" using assms(1) by (simp add: new_fields)
  from run_closed [OF st _ this assms(2)]
  obtain s2 where s2: "run inner ?s1 = Inr s2" "running_ops s2 = 1" "start_time s2 = Some ?t"
    "total_time s2 = total_time ?s1" by auto
  have "finish t1 s2
          = Inr (s2\<lparr>running_ops := 0, total_time := total_time s2 + (t1 - ?t), start_time := None\<rparr>)"
    using finish_Some [OF s2(3), of t1] s2(2) by simp
  then show ?thesis using s2 by (simp add: run_append new_fields)
qed

text \<open>
  C4. Take any sequence of issue and completion events, run from the reset state, in
  which completions never outnumber issues. It runs without error to a state \<open>s\<close>
  where \<open>running_ops\<close> is not negative and \<open>start_time\<close> is set exactly when
  \<open>running_ops\<close> is not 0. From \<open>s\<close>: an issue sets \<open>start_time\<close> to the clock
  exactly when \<open>running_ops\<close> goes from 0 to 1 and never touches \<open>total_time\<close>; a
  completion clears \<open>start_time\<close> and adds the span since \<open>start_time\<close> to
  \<open>total_time\<close> exactly when \<open>running_ops\<close> returns to 0, and otherwise only
  decrements \<open>running_ops\<close>; and a whole busy span, an issue at \<open>t0\<close>, any closed
  sequence of nested issues and completions, the last completion at \<open>t1\<close>, adds
  \<open>t1 - t0\<close> to \<open>total_time\<close>, once.
\<close>

theorem busy_window_invariant:
  assumes "outstanding 0 es"
  shows "\<exists>s. run es CommProfiler_reset = Inr s
           \<and> 0 \<le> running_ops s
           \<and> (start_time s = None \<longleftrightarrow> running_ops s = 0)
           \<and> (\<forall>vol now.
                 start_time (new vol now s)
                   = (if running_ops s = 0 then Some now else start_time s)
                 \<and> total_time (new vol now s) = total_time s)
           \<and> (\<forall>now. 0 < running_ops s \<longrightarrow>
                 (\<exists>t0. start_time s = Some t0
                    \<and> finish now s
                        = Inr (if running_ops s = 1
                               then s\<lparr>running_ops := 0,
                                       total_time := total_time s + (now - t0),
                                       start_time := None\<rparr>
                               else s\<lparr>running_ops := running_ops s - 1\<rparr>)))
           \<and> (\<forall>vol t0 inner t1. running_ops s = 0 \<and> closed 0 inner \<longrightarrow>
                 (\<exists>s'. run (New vol t0 # inner @ [Finish t1]) s = Inr s'
                    \<and> running_ops s' = 0 \<and> start_time s' = None
                    \<and> total_time s' = total_time s + (t1 - t0)))"
proof -
  have "outstanding (running_ops CommProfiler_reset) es"
    using assms by (simp add: CommProfiler_reset_def)
  then obtain s where s: "run es CommProfiler_reset = Inr s" "0 \<le> running_ops s"
    "start_time s = None \<longleftrightarrow> running_ops s = 0"
    using run_outstanding [of CommProfiler_reset es] by (auto simp: CommProfiler_reset_def)
  have a: "\<forall>vol now.
                 start_time (new vol now s)
                   = (if running_ops s = 0 then Some now else start_time s)
                 \<and> total_time (new vol now s) = total_time s"
    using s(3) by (auto simp: new_fields split: option.split)
  have b: "\<forall>now. 0 < running_ops s \<longrightarrow>
                 (\<exists>t0. start_time s = Some t0
                    \<and> finish now s
                        = Inr (if running_ops s = 1
                               then s\<lparr>running_ops := 0,
                                       total_time := total_time s + (now - t0),
                                       start_time := None\<rparr>
                               else s\<lparr>running_ops := running_ops s - 1\<rparr>))"
  proof (intro allI impI)
    fix now assume "0 < running_ops s"
    with s(3) obtain t0 where t0: "start_time s = Some t0" by auto
    from finish_Some [OF t0, of now] t0
    show "\<exists>t0. start_time s = Some t0
                    \<and> finish now s
                        = Inr (if running_ops s = 1
                               then s\<lparr>running_ops := 0,
                                       total_time := total_time s + (now - t0),
                                       start_time := None\<rparr>
                               else s\<lparr>running_ops := running_ops s - 1\<rparr>)"
      by blast
  qed
  have c: "\<forall>vol t0 inner t1. running_ops s = 0 \<and> closed 0 inner \<longrightarrow>
                 (\<exists>s'. run (New vol t0 # inner @ [Finish t1]) s = Inr s'
                    \<and> running_ops s' = 0 \<and> start_time s' = None
                    \<and> total_time s' = total_time s + (t1 - t0))"
  proof (intro allI impI)
    fix vol t0 inner t1 assume h: "running_ops s = 0 \<and> closed 0 inner"
    then have "start_time s = None" using s(3) by simp
    with busy_span [of s inner vol t0 t1] h
    show "\<exists>s'. run (New vol t0 # inner @ [Finish t1]) s = Inr s'
                    \<and> running_ops s' = 0 \<and> start_time s' = None
                    \<and> total_time s' = total_time s + (t1 - t0)"
      by simp
  qed
  show ?thesis
    by (rule exI [of _ s]) (intro conjI s(1) s(2) s(3) a b c)
qed

text \<open>
  Two collectives in flight at once: the first completion leaves the window open, the
  second closes it and adds the outer span, from 1 to 5.
\<close>

theorem busy_window_invariant_witness:
  "outstanding 0 [New 8 1, New 8 2, Finish 3]
   \<and> run [New 8 1, New 8 2, Finish 3] CommProfiler_reset
       = Inr \<lparr>running_ops = 1, total_time = 0, total_vol = 16, total_cnt = 2,
              start_time = Some 1\<rparr>
   \<and> finish 5 \<lparr>running_ops = 1, total_time = 0, total_vol = 16, total_cnt = 2,
                start_time = Some 1\<rparr>
       = Inr \<lparr>running_ops = 0, total_time = 4, total_vol = 16, total_cnt = 2,
              start_time = None\<rparr>"
proof -
  let ?es = "[New 8 1, New 8 2, Finish 3]"
  let ?S = "\<lparr>running_ops = 1, total_time = 0, total_vol = 16, total_cnt = 2,
              start_time = Some (1::real)\<rparr>"
  have h: "outstanding 0 ?es" by simp
  have r: "run ?es CommProfiler_reset = Inr ?S"
    by (simp add: new_def finish_def CommProfiler_reset_def Let_def)
  from busy_window_invariant [OF h] r
  have "\<forall>now. 0 < running_ops ?S \<longrightarrow>
                 (\<exists>t0. start_time ?S = Some t0
                    \<and> finish now ?S
                        = Inr (if running_ops ?S = 1
                               then ?S\<lparr>running_ops := 0,
                                       total_time := total_time ?S + (now - t0),
                                       start_time := None\<rparr>
                               else ?S\<lparr>running_ops := running_ops ?S - 1\<rparr>))"
    by auto
  then have "finish 5 ?S = Inr \<lparr>running_ops = 0, total_time = 4, total_vol = 16, total_cnt = 2,
              start_time = None\<rparr>"
    by simp
  with h r show ?thesis by blast
qed

subsection \<open>Asynchronous collectives\<close>

lemma wrapper_shape:
  assumes "P \<noteq> 0"
    and "f \<in> set [all_reduce P t, reduce_scatter P ts, all_gather P ts, broadcast t, reduce t]"
  shows "\<exists>vol. \<forall>async_op now1 now2 s. f async_op now1 now2 s = complete async_op now2 (new vol now1 s)"
proof -
  from assms(2) consider "f = all_reduce P t" | "f = reduce_scatter P ts"
    | "f = all_gather P ts" | "f = broadcast t" | "f = reduce t" by auto
  then show ?thesis
  proof cases
    case 1
    then show ?thesis using assms(1) by (simp add: all_reduce_def Let_def) blast
  next
    case 2
    then show ?thesis using assms(1) by (simp add: reduce_scatter_def Let_def) blast
  next
    case 3
    then show ?thesis using assms(1) by (simp add: all_gather_def Let_def) blast
  next
    case 4
    then show ?thesis by (simp add: broadcast_def Let_def) blast
  next
    case 5
    then show ?thesis by (simp add: reduce_def Let_def) blast
  qed
qed

lemma sync_async_complete:
  "\<exists>p. complete False now2 (new vol now1 s) = Inr (None, p)
      \<and> await now2 (complete True x (new vol now1 s)) = Inr p
      \<and> (\<exists>h q. complete True x (new vol now1 s) = Inr (Some h, q) \<and> wait h now2 q = Inr p)
      \<and> total_cnt p = total_cnt s + 1 \<and> running_ops p = running_ops s
      \<and> (running_ops s = 0 \<and> start_time s = None \<longrightarrow>
            start_time p = None \<and> total_time p = total_time s + (now2 - now1))"
proof -
  let ?q = "new vol now1 s"
  let ?t = "case start_time s of None \<Rightarrow> now1 | Some t0 \<Rightarrow> t0"
  let ?p = "if running_ops ?q = 1
            then ?q\<lparr>running_ops := 0, total_time := total_time ?q + (now2 - ?t),
                    start_time := None\<rparr>
            else ?q\<lparr>running_ops := running_ops ?q - 1\<rparr>"
  have st: "start_time ?q = Some ?t" by (simp add: new_fields split: option.split)
  have f: "finish now2 ?q = Inr ?p" by (rule finish_Some [OF st])
  have 1: "complete False now2 ?q = Inr (None, ?p)" by (simp add: complete_def f)
  have 2: "await now2 (complete True x ?q) = Inr ?p" by (simp add: await_def complete_def wait_def f)
  have 3: "\<exists>h q. complete True x ?q = Inr (Some h, q) \<and> wait h now2 q = Inr ?p"
    by (simp add: complete_def wait_def f)
  have 4: "total_cnt ?p = total_cnt s + 1" by (simp add: new_fields)
  have 5: "running_ops ?p = running_ops s" by (simp add: new_fields)
  have 6: "running_ops s = 0 \<and> start_time s = None \<longrightarrow>
            start_time ?p = None \<and> total_time ?p = total_time s + (now2 - now1)"
    by (simp add: new_fields)
  show ?thesis
    by (rule exI [of _ ?p]) (intro conjI 1 2 3 4 5 6)
qed

lemma never_awaited:
  assumes "0 \<le> running_ops s"
  shows "\<exists>h q. complete True x (new vol now1 s) = Inr (Some h, q) \<and> 0 < running_ops q
            \<and> (\<forall>es. closed 0 es \<longrightarrow> (\<exists>q'. run es q = Inr q' \<and> 0 < running_ops q'))"
proof -
  let ?q = "new vol now1 s"
  obtain t0 where t0: "start_time ?q = Some t0" by (cases "start_time s") (simp_all add: new_fields)
  have pos: "0 < running_ops ?q" using assms by (simp add: new_fields)
  have "\<exists>q'. run es ?q = Inr q' \<and> 0 < running_ops q'" if "closed 0 es" for es
    using run_closed [OF t0 pos _ that] pos by auto
  with pos show ?thesis by (simp add: complete_def)
qed

text \<open>
  C5. In a group of size \<open>P \<ge> 1\<close>, for each of the five wrappers and the same payload
  and clock readings: the synchronous call returns None and a state \<open>p\<close>; the
  asynchronous call returns a handle, and one \<open>wait()\<close> on it ends in the same state
  \<open>p\<close>. In \<open>p\<close> one more collective is counted and \<open>running_ops\<close> is back at its
  value before the call; when no collective was in flight before, the timing window is
  closed again and \<open>total_time\<close> has grown by the span from issue to completion. If the
  handle is never waited on, then, from a session whose \<open>running_ops\<close> is not negative,
  \<open>running_ops\<close> is greater than 0 after the call and stays so after any closed
  sequence of further collectives.
\<close>

theorem async_wait_matches_sync:
  assumes "1 \<le> P"
  shows "\<forall>f \<in> set [all_reduce P t, reduce_scatter P ts, all_gather P ts, broadcast t, reduce t].
           (\<exists>p. f False now1 now2 s = Inr (None, p)
               \<and> await now2 (f True now1 x s) = Inr p
               \<and> (\<exists>h q. f True now1 x s = Inr (Some h, q) \<and> wait h now2 q = Inr p)
               \<and> total_cnt p = total_cnt s + 1 \<and> running_ops p = running_ops s
               \<and> (running_ops s = 0 \<and> start_time s = None \<longrightarrow>
                     start_time p = None \<and> total_time p = total_time s + (now2 - now1)))
         \<and> (0 \<le> running_ops s \<longrightarrow>
              (\<exists>h q. f True now1 x s = Inr (Some h, q) \<and> 0 < running_ops q
                 \<and> (\<forall>es. closed 0 es \<longrightarrow> (\<exists>q'. run es q = Inr q' \<and> 0 < running_ops q'))))"
proof
  fix f
  assume "f \<in> set [all_reduce P t, reduce_scatter P ts, all_gather P ts, broadcast t, reduce t]"
  with assms obtain vol where
    f: "\<And>async_op now1 now2 s. f async_op now1 now2 s = complete async_op now2 (new vol now1 s)"
    using wrapper_shape [of P f t ts] by auto
  show "(\<exists>p. f False now1 now2 s = Inr (None, p)
               \<and> await now2 (f True now1 x s) = Inr p
               \<and> (\<exists>h q. f True now1 x s = Inr (Some h, q) \<and> wait h now2 q = Inr p)
               \<and> total_cnt p = total_cnt s + 1 \<and> running_ops p = running_ops s
               \<and> (running_ops s = 0 \<and> start_time s = None \<longrightarrow>
                     start_time p = None \<and> total_time p = total_time s + (now2 - now1)))
         \<and> (0 \<le> running_ops s \<longrightarrow>
              (\<exists>h q. f True now1 x s = Inr (Some h, q) \<and> 0 < running_ops q
                 \<and> (\<forall>es. closed 0 es \<longrightarrow> (\<exists>q'. run es q = Inr q' \<and> 0 < running_ops q'))))"
    unfolding f
  proof (rule conjI)
    show "\<exists>p. complete False now2 (new vol now1 s) = Inr (None, p)
      \<and> await now2 (complete True x (new vol now1 s)) = Inr p
      \<and> (\<exists>h q. complete True x (new vol now1 s) = Inr (Some h, q) \<and> wait h now2 q = Inr p)
      \<and> total_cnt p = total_cnt s + 1 \<and> running_ops p = running_ops s
      \<and> (running_ops s = 0 \<and> start_time s = None \<longrightarrow>
            start_time p = None \<and> total_time p = total_time s + (now2 - now1))"
      by (rule sync_async_complete)
    show "0 \<le> running_ops s \<longrightarrow>
              (\<exists>h q. complete True x (new vol now1 s) = Inr (Some h, q) \<and> 0 < running_ops q
                 \<and> (\<forall>es. closed 0 es \<longrightarrow> (\<exists>q'. run es q = Inr q' \<and> 0 < running_ops q')))"
      using never_awaited [of s x vol now1] by blast
  qed
qed

text \<open>An all-reduce in a group of four, issued from the reset state.\<close>

theorem async_wait_matches_sync_witness:
  "(1::int) \<le> 4
   \<and> all_reduce 4 \<lparr>element_size = 4, numel = 1024\<rparr> False 0 1 CommProfiler_reset
       = Inr (None,
              \<lparr>running_ops = 0, total_time = 1, total_vol = 6144, total_cnt = 1,
                start_time = None\<rparr>)
   \<and> all_reduce 4 \<lparr>element_size = 4, numel = 1024\<rparr> True 0 0 CommProfiler_reset
       = Inr (Some (CommHandler Work),
              \<lparr>running_ops = 1, total_time = 0, total_vol = 6144, total_cnt = 1,
                start_time = Some 0\<rparr>)
   \<and> await 1 (all_reduce 4 \<lparr>element_size = 4, numel = 1024\<rparr> True 0 0 CommProfiler_reset)
       = Inr \<lparr>running_ops = 0, total_time = 1, total_vol = 6144, total_cnt = 1,
               start_time = None\<rparr>"
proof -
  let ?t = "\<lparr>element_size = 4, numel = 1024\<rparr>"
  let ?p = "\<lparr>running_ops = 0, total_time = 1, total_vol = 6144, total_cnt = 1,
               start_time = None :: real option\<rparr>"
  have h: "(1::int) \<le> 4" by simp
  have s: "all_reduce 4 ?t False 0 1 CommProfiler_reset = Inr (None, ?p)"
    by (simp add: all_reduce_def complete_def finish_def new_def CommProfiler_reset_def Let_def)
  have e: "all_reduce 4 ?t True 0 0 CommProfiler_reset
       = Inr (Some (CommHandler Work),
              \<lparr>running_ops = 1, total_time = 0, total_vol = 6144, total_cnt = 1,
                start_time = Some 0\<rparr>)"
    by (simp add: all_reduce_def complete_def new_def CommProfiler_reset_def Let_def)
  have mem: "all_reduce 4 ?t
               \<in> set [all_reduce 4 ?t, reduce_scatter 4 [], all_gather 4 [], broadcast ?t, reduce ?t]"
    by simp
  from bspec [OF async_wait_matches_sync [OF h, of ?t "[]" 0 1 CommProfiler_reset 0] mem]
  obtain p where "all_reduce 4 ?t False 0 1 CommProfiler_reset = Inr (None, p)"
    and "await 1 (all_reduce 4 ?t True 0 0 CommProfiler_reset) = Inr p"
    by blast
  with s have "await 1 (all_reduce 4 ?t True 0 0 CommProfiler_reset) = Inr ?p"
    by simp
  with h s e show ?thesis by blast
qed

subsection \<open>Reductions\<close>

lemma foldl_plus_sum_list:
  fixes x :: "'a::monoid_add"
  shows "foldl (+) x ys = x + sum_list ys"
  by (induction ys arbitrary: x) (simp_all add: add.assoc)

lemma foldl_plus_prod:
  fixes p :: "'a::monoid_add \<times> 'b::monoid_add"
  shows "foldl (+) p qs = (fst p + sum_list (map fst qs), snd p + sum_list (map snd qs))"
  by (induction qs arbitrary: p) (simp_all add: plus_prod_def add.assoc)

lemma sum_list_replicate_real: "sum_list (replicate n (y::real)) = real n * y"
  by (induction n) (simp_all add: algebra_simps)

text \<open>
  C6. With a data-parallel group of size 1 the sum helper and the mean helper return
  their input. For every group size \<open>P \<ge> 1\<close> the mean helper returns what the sum
  helper returns, divided by \<open>P\<close>; and when the \<open>P - 1\<close> other ranks contribute the
  same value \<open>y\<close>, the sum is \<open>P y\<close> and the mean is \<open>y\<close>.
\<close>

theorem data_parallel_reducers:
  "data_parallel_sum in_place 1 others x = x
   \<and> data_parallel_mean in_place 1 others' y = y
   \<and> (1 \<le> P \<longrightarrow>
        data_parallel_mean in_place P others' y
          = data_parallel_sum in_place P others' y / real_of_int P)
   \<and> (1 \<le> P \<and> others' = replicate (nat (P - 1)) y \<longrightarrow>
        data_parallel_sum in_place P others' y = real_of_int P * y
        \<and> data_parallel_mean in_place P others' y = y)"
proof (intro conjI impI)
  show "data_parallel_sum in_place 1 others x = x"
    by (simp add: data_parallel_sum_def)
  show "data_parallel_mean in_place 1 others' y = y"
    by (simp add: data_parallel_mean_def)
  show "data_parallel_mean in_place P others' y
          = data_parallel_sum in_place P others' y / real_of_int P" if "1 \<le> P"
    using that by (cases "P = 1") (simp_all add: data_parallel_mean_def data_parallel_sum_def)
next
  assume h: "1 \<le> P \<and> others' = replicate (nat (P - 1)) y"
  then have r: "y + sum_list others' = real_of_int P * y"
    by (simp add: sum_list_replicate_real algebra_simps)
  show "data_parallel_sum in_place P others' y = real_of_int P * y"
    using h r
    by (cases "P = 1")
       (simp_all add: data_parallel_sum_def collective_all_reduce_def Let_def foldl_plus_sum_list)
  show "data_parallel_mean in_place P others' y = y"
    using h r
    by (cases "P = 1")
       (simp_all add: data_parallel_mean_def collective_all_reduce_def Let_def foldl_plus_sum_list)
qed

text \<open>Four ranks, each holding 3.\<close>

theorem data_parallel_reducers_witness:
  "(1::int) \<le> 4 \<and> [3, 3, 3] = replicate (nat (4 - 1)) (3::real)
   \<and> data_parallel_sum False 4 [3, 3, 3] (3::real) = 12
   \<and> data_parallel_mean False 4 [3, 3, 3] 3 = 3
   \<and> data_parallel_mean False 4 [3, 3, 3] 3 = data_parallel_sum False 4 [3, 3, 3] (3::real) / 4"
proof -
  have h: "(1::int) \<le> 4 \<and> [3, 3, 3] = replicate (nat (4 - 1)) (3::real)"
    by (simp add: numeral_3_eq_3)
  from data_parallel_reducers [of False "[]::real list" 3 "[3, 3, 3]" 3 4] h
  show ?thesis by simp
qed

subsection \<open>Accuracy\<close>

lemma Accuracy_run_fields:
  "total_correct (Accuracy_run bs s) = total_correct s + word_of_int (sum_list (map fst bs))"
  "total_samples (Accuracy_run bs s) = total_samples s + word_of_int (sum_list (map snd bs))"
  by (induction bs arbitrary: s) (simp_all add: Accuracy_forward_def Let_def add.assoc)

lemma sum_list_concat_fields:
  "(\<Sum>bs\<leftarrow>bss. word_of_int (sum_list (map f bs)) :: 32 word)
     = word_of_int (sum_list (map f (concat bss)))"
  by (induction bss) simp_all

lemma Accuracy_value_words:
  "Accuracy_value in_place (map (\<lambda>bs. Accuracy_run bs Accuracy_reset) other_batches)
       (Accuracy_run batches Accuracy_reset)
     = Inr (tensor_div
              (real_of_int (sint (word_of_int (global_correct (batches # other_batches)) :: 32 word)))
              (real_of_int (sint (word_of_int (global_samples (batches # other_batches)) :: 32 word))),
            Accuracy_run batches Accuracy_reset)"
proof -
  have c: "(\<Sum>a\<leftarrow>other_batches. total_correct (Accuracy_run a Accuracy_reset))
             = word_of_int (sum_list (map fst (concat other_batches)))"
    using sum_list_concat_fields [of fst other_batches]
    by (simp add: Accuracy_run_fields Accuracy_reset_def)
  have s: "(\<Sum>a\<leftarrow>other_batches. total_samples (Accuracy_run a Accuracy_reset))
             = word_of_int (sum_list (map snd (concat other_batches)))"
    using sum_list_concat_fields [of snd other_batches]
    by (simp add: Accuracy_run_fields Accuracy_reset_def)
  show ?thesis
    by (simp add: Accuracy_value_def collective_all_reduce_def Let_def foldl_plus_prod
        comp_def c s global_correct_def global_samples_def)
       (simp add: Accuracy_run_fields Accuracy_reset_def)
qed

lemma sint_32_id: "- (2 ^ 31) \<le> k \<Longrightarrow> k < 2 ^ 31 \<Longrightarrow> sint (word_of_int k :: 32 word) = k"
  by (simp add: sint_sbintrunc' signed_take_bit_int_eq_self)

text \<open>
  C7. Let every rank of the data-parallel group start from \<open>reset()\<close> and pass its
  batches to \<open>forward()\<close>. Then \<open>value()\<close> returns, on each rank, the quotient of the
  group's summed \<open>total_correct\<close> by the group's summed \<open>total_samples\<close>, both read
  as 32-bit signed integers, and leaves the accumulator as it was. When the group's
  correct predictions and samples fit 32 bits and there is at least one sample, this is
  the number of correct predictions of the whole group divided by its number of samples.
\<close>

theorem accuracy_value_global:
  "Accuracy_value in_place (map (\<lambda>bs. Accuracy_run bs Accuracy_reset) other_batches)
       (Accuracy_run batches Accuracy_reset)
     = Inr (tensor_div
              (real_of_int (sint (word_of_int (global_correct (batches # other_batches)) :: 32 word)))
              (real_of_int (sint (word_of_int (global_samples (batches # other_batches)) :: 32 word))),
            Accuracy_run batches Accuracy_reset)
   \<and> (0 \<le> global_correct (batches # other_batches)
        \<and> global_correct (batches # other_batches) < 2 ^ 31
        \<and> 0 < global_samples (batches # other_batches)
        \<and> global_samples (batches # other_batches) < 2 ^ 31 \<longrightarrow>
      Accuracy_value in_place (map (\<lambda>bs. Accuracy_run bs Accuracy_reset) other_batches)
          (Accuracy_run batches Accuracy_reset)
        = Inr (Fin (real_of_int (global_correct (batches # other_batches))
                      / real_of_int (global_samples (batches # other_batches))),
               Accuracy_run batches Accuracy_reset))"
proof (intro conjI impI)
  show "Accuracy_value in_place (map (\<lambda>bs. Accuracy_run bs Accuracy_reset) other_batches)
       (Accuracy_run batches Accuracy_reset)
     = Inr (tensor_div
              (real_of_int (sint (word_of_int (global_correct (batches # other_batches)) :: 32 word)))
              (real_of_int (sint (word_of_int (global_samples (batches # other_batches)) :: 32 word))),
            Accuracy_run batches Accuracy_reset)"
    by (rule Accuracy_value_words)
next
  let ?C = "global_correct (batches # other_batches)"
  let ?S = "global_samples (batches # other_batches)"
  assume h: "0 \<le> ?C \<and> ?C < 2 ^ 31 \<and> 0 < ?S \<and> ?S < 2 ^ 31"
  then have "sint (word_of_int ?C :: 32 word) = ?C" "sint (word_of_int ?S :: 32 word) = ?S"
    by (simp_all add: sint_32_id)
  moreover have "?S \<noteq> 0" using h by simp
  ultimately show "Accuracy_value in_place (map (\<lambda>bs. Accuracy_run bs Accuracy_reset) other_batches)
          (Accuracy_run batches Accuracy_reset)
        = Inr (Fin (real_of_int ?C / real_of_int ?S), Accuracy_run batches Accuracy_reset)"
    by (simp add: Accuracy_value_words tensor_div_def)
qed

text \<open>
  Two ranks, 3 correct of 4 on one and 1 correct of 4 on the other: \<open>value()\<close> is
  \<open>4 / 8\<close> on both.
\<close>

theorem accuracy_value_global_witness:
  "(0 \<le> global_correct [[(3, 4)], [(1, 4)]] \<and> global_correct [[(3, 4)], [(1, 4)]] < 2 ^ 31
    \<and> 0 < global_samples [[(3, 4)], [(1, 4)]] \<and> global_samples [[(3, 4)], [(1, 4)]] < 2 ^ 31)
   \<and> Accuracy_value False [Accuracy_run [(1, 4)] Accuracy_reset] (Accuracy_run [(3, 4)] Accuracy_reset)
       = Inr (Fin (1 / 2), Accuracy_run [(3, 4)] Accuracy_reset)
   \<and> Accuracy_value False [Accuracy_run [(3, 4)] Accuracy_reset] (Accuracy_run [(1, 4)] Accuracy_reset)
       = Inr (Fin (1 / 2), Accuracy_run [(1, 4)] Accuracy_reset)"
proof -
  have g0: "global_correct [[(3, 4)], [(1, 4)]] = 4" "global_samples [[(3, 4)], [(1, 4)]] = 8"
    by (simp_all add: global_correct_def global_samples_def)
  have g1: "global_correct [[(1, 4)], [(3, 4)]] = 4" "global_samples [[(1, 4)], [(3, 4)]] = 8"
    by (simp_all add: global_correct_def global_samples_def)
  from accuracy_value_global [of False "[[(1, 4)]]" "[(3, 4)]"]
       accuracy_value_global [of False "[[(3, 4)]]" "[(1, 4)]"]
  show ?thesis
    unfolding g0 g1 by (simp add: tensor_div_def)
qed

subsection \<open>Perplexity\<close>

lemma Perplexity_run_fields:
  "cnt (Perplexity_run losses s) = cnt s + int (length losses)"
  "total_loss (Perplexity_run losses s) = total_loss s + sum_list losses"
  by (induction losses arbitrary: s) (simp_all add: Perplexity_forward_def Let_def)

lemma Perplexity_value_result:
  "\<exists>self'. Perplexity_value in_place P others self
      = Inr (tensor_exp (tensor_div (total_loss self + sum_list others)
                                    (real_of_int (cnt self * P))), self')"
  by (simp add: Perplexity_value_def collective_all_reduce_def Let_def foldl_plus_sum_list)

text \<open>
  C8. After \<open>reset()\<close> and at least one \<open>forward()\<close>, each adding 1 to \<open>cnt\<close> and
  its loss to \<open>total_loss\<close>, \<open>value()\<close> in a group of size \<open>P \<ge> 1\<close> returns the
  exponential of the group's summed \<open>total_loss\<close> (the rank's own losses plus what the
  other ranks contribute) divided by \<open>cnt * P\<close>.
\<close>

theorem perplexity_value_global:
  assumes "losses \<noteq> []" and "1 \<le> P"
  shows "\<exists>self'. Perplexity_value in_place P others (Perplexity_run losses Perplexity_reset)
           = Inr (Fin (exp ((sum_list losses + sum_list others)
                              / (real (length losses) * real_of_int P))), self')"
proof -
  let ?s = "Perplexity_run losses Perplexity_reset"
  have c: "cnt ?s = int (length losses)" and l: "total_loss ?s = sum_list losses"
    by (simp_all add: Perplexity_run_fields Perplexity_reset_def)
  have "real_of_int (cnt ?s * P) \<noteq> 0" using assms c by simp
  then have "tensor_div (total_loss ?s + sum_list others) (real_of_int (cnt ?s * P))
               = Fin ((sum_list losses + sum_list others)
                        / (real (length losses) * real_of_int P))"
    unfolding tensor_div_def by (simp add: c l)
  with Perplexity_value_result [of in_place P others ?s] show ?thesis by simp
qed

text \<open>Losses 1 and 2 on a single-process group: \<open>exp 1.5\<close>.\<close>

theorem perplexity_value_global_witness:
  "[1, 2] \<noteq> ([] :: real list) \<and> (1::int) \<le> 1
   \<and> (\<exists>self'. Perplexity_value False 1 [] (Perplexity_run [1, 2] Perplexity_reset)
           = Inr (Fin (exp (3 / 2)), self'))"
proof -
  have h1: "[1, 2] \<noteq> ([] :: real list)" and h2: "(1::int) \<le> 1" by simp_all
  from perplexity_value_global [OF h1 h2, of False "[]"] show ?thesis by simp
qed

text \<open>
  C9, as stated, fails: \<open>value()\<close> on an accumulator that never saw \<open>forward()\<close>
  raises nothing. On a single-process group the division is \<open>0.0 / 0\<close> on a tensor,
  and the call returns NaN.
\<close>

theorem perplexity_value_before_forward_counterexample:
  "Perplexity_value False 1 [] Perplexity_reset = Inr (NaN, Perplexity_reset)"
  by (simp add: Perplexity_value_def collective_all_reduce_def Perplexity_reset_def
      tensor_div_def Let_def)

text \<open>
  C9, amended. \<open>value()\<close> on a Perplexity accumulator before any \<open>forward()\<close> call
  is not checked and raises no error: it divides the reduced loss by zero and returns
  NaN when the reduced loss is 0 (as when no rank has called \<open>forward()\<close>), infinity
  when it is positive and 0 when it is negative.
\<close>

theorem perplexity_value_unchecked:
  "\<exists>self'. Perplexity_value in_place P others Perplexity_reset
      = Inr (if sum_list others = 0 then NaN
             else if 0 < sum_list others then PInf
             else Fin 0, self')"
proof -
  from Perplexity_value_result [of in_place P others Perplexity_reset]
  obtain self' where
    "Perplexity_value in_place P others Perplexity_reset
       = Inr (tensor_exp (tensor_div (sum_list others) 0), self')"
    by (auto simp: Perplexity_reset_def)
  moreover have "tensor_exp (tensor_div (sum_list others) 0)
                   = (if sum_list others = 0 then NaN
                      else if 0 < sum_list others then PInf
                      else Fin 0)"
    by (simp add: tensor_div_def)
  ultimately show ?thesis by simp
qed

subsection \<open>Repeated calls of value()\<close>

lemma repeat_call_read_only:
  "f s = Inr (v, s) \<Longrightarrow> repeat_call n f s = Inr (replicate n v, s)"
  by (induction n) simp_all

lemma Accuracy_value_frame:
  "\<exists>v. Accuracy_value in_place others a = Inr (v, a)"
  by (simp add: Accuracy_value_def Let_def split: prod.split)

text \<open>
  \<open>Accuracy.value()\<close> reduces the stacked copy: whether or not the reduction writes
  into its argument, the accumulator is left as it was, and \<open>n\<close> calls in succession
  return \<open>n\<close> times the same value.
\<close>

lemma Accuracy_value_read_only:
  "\<exists>v. Accuracy_value in_place accs a = Inr (v, a)
      \<and> repeat_call n (Accuracy_value in_place accs) a = Inr (replicate n v, a)"
proof -
  from Accuracy_value_frame obtain v where v: "Accuracy_value in_place accs a = Inr (v, a)"
    by blast
  from v repeat_call_read_only [of "Accuracy_value in_place accs" a v n]
  show ?thesis by blast
qed

text \<open>
  \<open>Perplexity.value()\<close> hands \<open>self.total_loss\<close> itself to the reduction: \<open>cnt\<close>
  is left as it was, and \<open>total_loss\<close> is left as it was exactly when the reduction
  does not write into its argument; otherwise it holds the sum over the group.
\<close>

lemma Perplexity_value_state:
  "\<exists>v. Perplexity_value in_place P others p
      = Inr (v, p\<lparr>total_loss := (if in_place then total_loss p + sum_list others
                                 else total_loss p)\<rparr>)"
  by (simp add: Perplexity_value_def collective_all_reduce_def Let_def foldl_plus_sum_list)

text \<open>
  C10 fails for Perplexity, the reduction being written into its argument as
  \<open>_test\<close> needs it. Two ranks, each after \<open>reset()\<close> and one \<open>forward()\<close> with loss
  1: the first \<open>value()\<close> returns \<open>exp ((1 + 1) / (1 * 2)) = exp 1\<close> and leaves 2 in
  \<open>total_loss\<close>, on either rank; the second \<open>value()\<close>, the other rank now
  contributing 2 as well, returns \<open>exp 2\<close> and leaves 4. \<open>Accuracy.value()\<close> does not
  have the defect, see above.
\<close>

theorem perplexity_value_overwrites_total_loss:
  "Perplexity_run [1] Perplexity_reset = \<lparr>cnt = 1, total_loss = 1\<rparr>
   \<and> Perplexity_value True 2 [1] (Perplexity_run [1] Perplexity_reset)
       = Inr (Fin (exp 1), \<lparr>cnt = 1, total_loss = 2\<rparr>)
   \<and> Perplexity_value True 2 [2] \<lparr>cnt = 1, total_loss = 2\<rparr>
       = Inr (Fin (exp 2), \<lparr>cnt = 1, total_loss = 4\<rparr>)"
  by (simp add: Perplexity_value_def Perplexity_forward_def Perplexity_reset_def
      collective_all_reduce_def tensor_div_def Let_def)

end
